theory Spec2Isabelle
  imports Complex_Main "HOL-Library.Word"
begin

section \<open>The Hibachi example SDKs: canonical digests and signature payloads\<close>

text \<open>
  The repository holds two TypeScript SDKs that build the byte digest of a trading
  instruction and sign it: \<^verbatim>\<open>HibachiEcdsaSDK\<close> (file \<^verbatim>\<open>sdk_ecdsa.ts\<close>) and the older
  \<^verbatim>\<open>HibachiSDK\<close>, which signs with an HMAC. This theory embeds their digest code:
  every function below carries the name of the source function it follows.

  What the code takes from libraries is modelled here as far as the digest needs it:
  \<^item> a \<^verbatim>\<open>Buffer\<close> is a list of bytes;
  \<^item> a \<^verbatim>\<open>BigNumber\<close> (bignumber.js) is NaN, an infinity or a finite decimal, held as
    a rational; its products are exact, \<^verbatim>\<open>integerValue(ROUND_DOWN)\<close> truncates towards
    zero. The library's negative zero and its bounds on exponents (a billion) are
    left out: negative zero prints like zero in base 16;
  \<^item> a JavaScript \<^verbatim>\<open>number\<close> is held by the decimal value that \<^verbatim>\<open>String\<close> prints for
    it, which is what \<^verbatim>\<open>new BigNumber(v)\<close> reads. \<open>Number\<close> below reads a numeric
    string exactly; the source's doubles agree with it on literals of up to 15
    significant digits, and the rounding of longer literals to 53 bits is outside
    this embedding. No theorem depends on what \<open>Number\<close> returns on a given
    string except those that evaluate a concrete order;
  \<^item> numbers that the code uses as integers (nonce, contract id, decimals, byte
    counts) are \<open>int\<close> or \<open>nat\<close>. An integer is the number that the source holds as
    long as it is a safe integer, below \<open>2^53\<close> in magnitude, as a reading of
    \<^verbatim>\<open>Date.now()\<close> is; a larger double prints rounded, and \<^verbatim>\<open>new BigNumber\<close> reads what
    is printed. The theorems that state the bytes of a nonce take it below \<open>2^53\<close>;
  \<^item> SHA-256, HMAC and the elliptic-curve signature are parameters.
\<close>

subsection \<open>Bytes and hexadecimal strings\<close>

type_synonym byte = "8 word"
type_synonym Buffer = "byte list"

text \<open>The digit alphabet of \<^verbatim>\<open>toString(16)\<close>, lower case.\<close>

definition hex_digit :: "nat \<Rightarrow> char" where
  "hex_digit d = ''0123456789abcdef'' ! d"

text \<open>The value of a hexadecimal character, in either case; \<open>None\<close> for any other.\<close>

definition hex_val :: "char \<Rightarrow> nat option" where
  "hex_val c =
     (let n = (of_char c :: nat) in
      if 48 \<le> n \<and> n \<le> 57 then Some (n - 48)
      else if 97 \<le> n \<and> n \<le> 102 then Some (n - 87)
      else if 65 \<le> n \<and> n \<le> 70 then Some (n - 55)
      else None)"

text \<open>A non-negative integer in base 16 without leading zeros; zero prints as \<open>0\<close>.\<close>

fun hex_of_nat :: "nat \<Rightarrow> string" where
  "hex_of_nat n =
     (if n < 16 then [hex_digit n] else hex_of_nat (n div 16) @ [hex_digit (n mod 16)])"

declare hex_of_nat.simps [simp del]

text \<open>\<^verbatim>\<open>String.prototype.padStart\<close>: nothing is cut when the string is already longer.\<close>

definition padStart :: "nat \<Rightarrow> char \<Rightarrow> string \<Rightarrow> string" where
  "padStart targetLength c s = replicate (targetLength - length s) c @ s"

text \<open>
  \<^verbatim>\<open>Buffer.from(s, 'hex')\<close> of Node.js: two characters make a byte; decoding stops
  without an error at the first pair that is not hexadecimal, and a last single
  character is dropped.
\<close>

fun Buffer_from_hex :: "string \<Rightarrow> Buffer" where
  "Buffer_from_hex (a # b # cs) =
     (case (hex_val a, hex_val b) of
        (Some x, Some y) \<Rightarrow> of_nat (16 * x + y) # Buffer_from_hex cs
      | _ \<Rightarrow> [])"
| "Buffer_from_hex _ = []"

text \<open>\<^verbatim>\<open>buffer.toString('hex')\<close>: two lower-case digits for each byte.\<close>

definition Buffer_toString_hex :: "Buffer \<Rightarrow> string" where
  "Buffer_toString_hex bs =
     concat (map (\<lambda>b. [hex_digit (unat b div 16), hex_digit (unat b mod 16)]) bs)"

subsection \<open>Numbers and BigNumbers\<close>

datatype number = NaN_number | Infinity_number bool | Num rat

datatype BigNumber = NaN | Infinity bool | Finite rat

text \<open>In both types the flag of an infinity is \<open>True\<close> for the negative one.\<close>

definition BigNumber_of_number :: "number \<Rightarrow> BigNumber" where
  "BigNumber_of_number v =
     (case v of NaN_number \<Rightarrow> NaN | Infinity_number neg \<Rightarrow> Infinity neg | Num q \<Rightarrow> Finite q)"

definition BigNumber_of_int :: "int \<Rightarrow> BigNumber" where
  "BigNumber_of_int i = Finite (of_int i)"

definition is_space :: "char \<Rightarrow> bool" where
  "is_space c = (let n = (of_char c :: nat) in n = 32 \<or> (9 \<le> n \<and> n \<le> 13))"

definition trim :: "string \<Rightarrow> string" where
  "trim s = rev (dropWhile is_space (rev (dropWhile is_space s)))"

definition digits_ok :: "nat \<Rightarrow> string \<Rightarrow> bool" where
  "digits_ok b s = list_all (\<lambda>c. case hex_val c of Some d \<Rightarrow> d < b | None \<Rightarrow> False) s"

definition digits_nat :: "nat \<Rightarrow> string \<Rightarrow> nat" where
  "digits_nat b s = foldl (\<lambda>acc c. b * acc + (case hex_val c of Some d \<Rightarrow> d | None \<Rightarrow> 0)) 0 s"

text \<open>The exponent part of a decimal literal, after its \<open>e\<close>: a sign and digits.\<close>

definition parse_exponent :: "string \<Rightarrow> int option" where
  "parse_exponent es =
     (case es of
        [] \<Rightarrow> None
      | c # cs \<Rightarrow>
          if c = CHR ''-'' then
            (if cs \<noteq> [] \<and> digits_ok 10 cs then Some (- int (digits_nat 10 cs)) else None)
          else if c = CHR ''+'' then
            (if cs \<noteq> [] \<and> digits_ok 10 cs then Some (int (digits_nat 10 cs)) else None)
          else if digits_ok 10 (c # cs) then Some (int (digits_nat 10 (c # cs)))
          else None)"

text \<open>
  An unsigned decimal literal: digits, an optional point and fraction digits (one of
  the two digit runs may be empty, not both), an optional exponent.
\<close>

definition parse_decimal :: "string \<Rightarrow> rat option" where
  "parse_decimal s =
     (let not_e = (\<lambda>c. c \<noteq> CHR ''e'' \<and> c \<noteq> CHR ''E'');
          mant = takeWhile not_e s;
          rest = dropWhile not_e s;
          ip = takeWhile (\<lambda>c. c \<noteq> CHR ''.'') mant;
          fp = drop 1 (dropWhile (\<lambda>c. c \<noteq> CHR ''.'') mant);
          ex = (case rest of [] \<Rightarrow> Some 0 | _ # es \<Rightarrow> parse_exponent es)
      in if digits_ok 10 ip \<and> digits_ok 10 fp \<and> (ip \<noteq> [] \<or> fp \<noteq> []) then
           (case ex of
              None \<Rightarrow> None
            | Some e \<Rightarrow> Some (of_nat (digits_nat 10 (ip @ fp)) / 10 ^ length fp * 10 powi e))
         else None)"

text \<open>An integer literal with one of the prefixes \<open>0x\<close>, \<open>0o\<close>, \<open>0b\<close>.\<close>

definition parse_prefixed :: "string \<Rightarrow> nat option" where
  "parse_prefixed s =
     (case s of
        z # x # ds \<Rightarrow>
          if z = CHR ''0'' \<and> ds \<noteq> [] then
            (if (x = CHR ''x'' \<or> x = CHR ''X'') \<and> digits_ok 16 ds then Some (digits_nat 16 ds)
             else if (x = CHR ''o'' \<or> x = CHR ''O'') \<and> digits_ok 8 ds then Some (digits_nat 8 ds)
             else if (x = CHR ''b'' \<or> x = CHR ''B'') \<and> digits_ok 2 ds then Some (digits_nat 2 ds)
             else None)
          else None
      | _ \<Rightarrow> None)"

text \<open>
  \<^verbatim>\<open>Number(s)\<close> on a string: white space is trimmed, the empty string is 0, a
  prefixed literal takes no sign, anything that is not a numeric literal is NaN.
\<close>

definition Number :: "string \<Rightarrow> number" where
  "Number s =
     (let t = trim s in
      if t = [] then Num 0
      else if t = ''Infinity'' \<or> t = ''+Infinity'' then Infinity_number False
      else if t = ''-Infinity'' then Infinity_number True
      else if hd t = CHR ''-'' then
        (case parse_decimal (tl t) of Some q \<Rightarrow> Num (- q) | None \<Rightarrow> NaN_number)
      else if hd t = CHR ''+'' then
        (case parse_decimal (tl t) of Some q \<Rightarrow> Num q | None \<Rightarrow> NaN_number)
      else
        (case parse_prefixed t of
           Some n \<Rightarrow> Num (of_nat n)
         | None \<Rightarrow> (case parse_decimal t of Some q \<Rightarrow> Num q | None \<Rightarrow> NaN_number)))"

text \<open>
  \<^verbatim>\<open>new BigNumber(s)\<close> on a string. Unlike \<open>Number\<close> it reads the empty string as
  NaN and lets a prefixed literal carry a minus sign. On a prefixed literal the library
  differs from this reading in two ways that a decimal order id does not meet: it reads
  fraction digits after the prefix, and it takes the digits of a hexadecimal literal in
  one case only.
\<close>

definition BigNumber_of_string :: "string \<Rightarrow> BigNumber" where
  "BigNumber_of_string s =
     (let t = trim s;
          u = (if t \<noteq> [] \<and> (hd t = CHR ''-'' \<or> hd t = CHR ''+'') then tl t else t);
          neg = (t \<noteq> [] \<and> hd t = CHR ''-'')
      in if u = ''Infinity'' then Infinity neg
         else
           (case parse_prefixed u of
              Some n \<Rightarrow> Finite (if neg then - of_nat n else of_nat n)
            | None \<Rightarrow>
                (case parse_decimal u of
                   Some q \<Rightarrow> Finite (if neg then - q else q)
                 | None \<Rightarrow> NaN)))"

text \<open>\<^verbatim>\<open>x.multipliedBy(y)\<close>: exact on finite values.\<close>

fun multipliedBy :: "BigNumber \<Rightarrow> BigNumber \<Rightarrow> BigNumber" where
  "multipliedBy (Finite a) (Finite b) = Finite (a * b)"
| "multipliedBy (Infinity m) (Infinity n) = Infinity (m \<noteq> n)"
| "multipliedBy (Infinity m) (Finite b) = (if b = 0 then NaN else Infinity (m \<noteq> (b < 0)))"
| "multipliedBy (Finite a) (Infinity n) = (if a = 0 then NaN else Infinity ((a < 0) \<noteq> n))"
| "multipliedBy NaN _ = NaN"
| "multipliedBy _ NaN = NaN"

text \<open>\<^verbatim>\<open>x.shiftedBy(k)\<close>: the library multiplies by the BigNumber \<^verbatim>\<open>'1e' + k\<close>.\<close>

definition shiftedBy :: "BigNumber \<Rightarrow> int \<Rightarrow> BigNumber" where
  "shiftedBy x k = multipliedBy x (Finite (10 powi k))"

text \<open>\<^verbatim>\<open>x.integerValue(BigNumber.ROUND_DOWN)\<close>: rounding mode 1, towards zero.\<close>

definition integerValue_ROUND_DOWN :: "BigNumber \<Rightarrow> BigNumber" where
  "integerValue_ROUND_DOWN x =
     (case x of
        Finite q \<Rightarrow> Finite (of_int (if 0 \<le> q then \<lfloor>q\<rfloor> else \<lceil>q\<rceil>))
      | _ \<Rightarrow> x)"

definition strip_trailing_zeros :: "string \<Rightarrow> string" where
  "strip_trailing_zeros s = rev (dropWhile (\<lambda>c. c = CHR ''0'') (rev s))"

text \<open>The lowest \<open>k\<close> digits of \<open>n\<close> in base 16, leading zeros included.\<close>

primrec hex_fixed :: "nat \<Rightarrow> nat \<Rightarrow> string" where
  "hex_fixed 0 n = []"
| "hex_fixed (Suc k) n = hex_fixed k (n div 16) @ [hex_digit (n mod 16)]"

text \<open>
  The digits of a non-negative value in base 16, as \<^verbatim>\<open>toString(16)\<close> prints them:
  an integer prints exactly; a fraction is rounded half up to the library's default of
  20 places (\<^verbatim>\<open>DECIMAL_PLACES\<close>, \<^verbatim>\<open>ROUNDING_MODE\<close> 4) and printed after a point,
  without its trailing zeros.
\<close>

definition hex_of_magnitude :: "rat \<Rightarrow> string" where
  "hex_of_magnitude a =
     (let m = nat \<lfloor>a * 16 ^ 20 + 1 / 2\<rfloor>;
          ip = m div 16 ^ 20;
          fp = m mod 16 ^ 20
      in hex_of_nat ip @
         (if fp = 0 then [] else CHR ''.'' # strip_trailing_zeros (hex_fixed 20 fp)))"

text \<open>\<^verbatim>\<open>x.toString(16)\<close>.\<close>

definition toString16 :: "BigNumber \<Rightarrow> string" where
  "toString16 x =
     (case x of
        NaN \<Rightarrow> ''NaN''
      | Infinity neg \<Rightarrow> (if neg then ''-Infinity'' else ''Infinity'')
      | Finite q \<Rightarrow> (if q < 0 then ''-'' else []) @ hex_of_magnitude \<bar>q\<bar>)"

subsection \<open>\<^verbatim>\<open>HibachiEcdsaSDK\<close>: scaling and fixed-width fields\<close>

definition FEE_MULTIPLIER :: BigNumber where
  "FEE_MULTIPLIER = Finite (10 ^ 8)"

definition PRICE_MULTIPLIER :: BigNumber where
  "PRICE_MULTIPLIER = Finite (2 ^ 32)"

text \<open>
  \<^verbatim>\<open>feesPercentWithDecimal(fees)\<close>. Its callers pass a BigNumber, of which
  \<^verbatim>\<open>new BigNumber(fees)\<close> is a copy. There is no rounding step in this function.
\<close>

definition feesPercentWithDecimal :: "BigNumber \<Rightarrow> BigNumber" where
  "feesPercentWithDecimal fees = multipliedBy fees FEE_MULTIPLIER"

definition quantityFromReal :: "number \<Rightarrow> int \<Rightarrow> BigNumber" where
  "quantityFromReal quantity underlyingDecimals =
     integerValue_ROUND_DOWN (shiftedBy (BigNumber_of_number quantity) underlyingDecimals)"

definition priceFromReal :: "number \<Rightarrow> int \<Rightarrow> BigNumber" where
  "priceFromReal price underlyingDecimals =
     (let decimals = 6 - underlyingDecimals
      in integerValue_ROUND_DOWN
           (multipliedBy (shiftedBy (BigNumber_of_number price) decimals) PRICE_MULTIPLIER))"

text \<open>
  \<^verbatim>\<open>toBytes(value, numBytes)\<close>: the value in base 16, padded on the left to two
  characters for each byte, decoded as hexadecimal. Nothing here checks the sign of
  the value, that it is an integer, or its size.
\<close>

definition toBytes :: "BigNumber \<Rightarrow> nat \<Rightarrow> Buffer" where
  "toBytes v numBytes = Buffer_from_hex (padStart (2 * numBytes) CHR ''0'' (toString16 v))"

subsection \<open>\<^verbatim>\<open>HibachiEcdsaSDK.DigestSerializer\<close>\<close>

datatype OrderSide = BID | ASK

datatype OrderType = LIMIT | MARKET

text \<open>
  \<^verbatim>\<open>OrderPayload\<close>. The price and the fees are optional in the source: \<open>None\<close> is
  \<^verbatim>\<open>undefined\<close>.
\<close>

record OrderPayload =
  nonce :: int
  contractId :: int
  side :: OrderSide
  price :: "string option"
  totalQuantity :: string
  maxFees :: "number option"

text \<open>JavaScript's truth value of an optional string: undefined and the empty string are false.\<close>

definition truthy :: "string option \<Rightarrow> bool" where
  "truthy v = (case v of None \<Rightarrow> False | Some str \<Rightarrow> str \<noteq> [])"

text \<open>
  \<^verbatim>\<open>serializeOrder(payload, sdk, underlyingDecimals)\<close>. The price is scaled, and its
  field written, only when \<^verbatim>\<open>payload.price\<close> is truthy. The nonce and the contract
  id are the integers that \<^verbatim>\<open>new BigNumber\<close> reads from the numbers of the payload, which
  it does exactly for a safe integer (below \<open>2^53\<close>).
\<close>

definition serializeOrder :: "OrderPayload \<Rightarrow> int \<Rightarrow> Buffer" where
  "serializeOrder payload underlyingDecimals =
     (let totalQuantity' = quantityFromReal (Number (totalQuantity payload)) underlyingDecimals;
          price' = (case price payload of
                      None \<Rightarrow> None
                    | Some str \<Rightarrow>
                        if truthy (price payload)
                        then Some (priceFromReal (Number str) underlyingDecimals) else None);
          maxFees' = (case maxFees payload of
                        Some f \<Rightarrow> BigNumber_of_number f
                      | None \<Rightarrow> BigNumber_of_int 0);
          realMaxFees = feesPercentWithDecimal maxFees'
      in toBytes (BigNumber_of_int (nonce payload)) 8 @
         toBytes (BigNumber_of_int (contractId payload)) 4 @
         toBytes totalQuantity' 8 @
         toBytes (BigNumber_of_int (if side payload = ASK then 0 else 1)) 4 @
         (case price' of Some pr \<Rightarrow> toBytes pr 8 | None \<Rightarrow> []) @
         toBytes realMaxFees 8)"

definition serializeOrderId :: "string \<Rightarrow> Buffer" where
  "serializeOrderId orderId = toBytes (BigNumber_of_string orderId) 8"

subsection \<open>Signing\<close>

datatype error =
    PublicKeyMismatch
  | UnknownActionType string
  | AssertionFailed
  | InvalidPoint

text \<open>
  A signature of the elliptic library: \<open>r\<close> and \<open>s\<close> are non-negative integers, the
  recovery parameter is a number or \<^verbatim>\<open>null\<close>.
\<close>

record Signature =
  sig_r :: nat
  sig_s :: nat
  recoveryParam :: "nat option"

text \<open>
  The library calls of the signing code, as parameters:
  \<^item> \<open>public_of_private k\<close> is \<^verbatim>\<open>ec.keyFromPrivate(k).getPublic().encodeCompressed('hex')\<close>;
  \<^item> \<open>ec_sign k h\<close> is \<^verbatim>\<open>ec.keyFromPrivate(k).sign(h, 'hex', {canonical: true})\<close>;
  \<^item> \<open>ethers_sha256 d\<close> is \<^verbatim>\<open>ethers.sha256(d)\<close>, a hex string after the prefix \<open>0x\<close>;
  \<^item> \<open>compress_public k\<close> is \<^verbatim>\<open>ec.keyFromPublic('04' + k, 'hex').getPublic().encodeCompressed('hex')\<close>,
    which raises on a malformed key.
\<close>

record Libs =
  public_of_private :: "string \<Rightarrow> string"
  ec_sign :: "string \<Rightarrow> string \<Rightarrow> Signature"
  ethers_sha256 :: "Buffer \<Rightarrow> string"
  compress_public :: "string \<Rightarrow> error + string"

record HibachiEcdsaSDK =
  accountId :: int
  apiKey :: string
  publicKey :: string
  privateKey :: string

definition signMessageSha256 :: "Libs \<Rightarrow> string \<Rightarrow> Buffer \<Rightarrow> string \<Rightarrow> error + Signature" where
  "signMessageSha256 lib from data key =
     (if public_of_private lib key \<noteq> from then Inl PublicKeyMismatch
      else (let msgHash = drop 2 (ethers_sha256 lib data) in Inr (ec_sign lib key msgHash)))"

text \<open>
  \<^verbatim>\<open>bn.toArrayLike(Buffer, 'be', length)\<close> of bn.js: the big-endian bytes, padded with
  zeros on the left; the library asserts that the value fits and that the length is
  positive.
\<close>

primrec be_bytes :: "nat \<Rightarrow> nat \<Rightarrow> Buffer" where
  "be_bytes 0 n = []"
| "be_bytes (Suc w) n = be_bytes w (n div 256) @ [of_nat (n mod 256)]"

definition toArrayLike_be :: "nat \<Rightarrow> nat \<Rightarrow> error + Buffer" where
  "toArrayLike_be v len = (if v < 256 ^ len \<and> 0 < len then Inr (be_bytes len v) else Inl AssertionFailed)"

definition signatureToBytes :: "Signature \<Rightarrow> error + Buffer" where
  "signatureToBytes signature =
     (case toArrayLike_be (sig_r signature) 32 of
        Inl e \<Rightarrow> Inl e
      | Inr rb \<Rightarrow>
          (case toArrayLike_be (sig_s signature) 32 of
             Inl e \<Rightarrow> Inl e
           | Inr sb \<Rightarrow> Inr (rb @ sb)))"

text \<open>
  The payload built from a signature. The source has this block in \<^verbatim>\<open>createOrder\<close>
  (lines 242 to 256) and again in every other signing method:
  \<^verbatim>\<open>
  let signaturePayload = "";
  const signatureBuffer = this.signatureToBytes(ecdsaSignature);
  if (ecdsaSignature.recoveryParam || ecdsaSignature.recoveryParam === 0) {
    signaturePayload = signatureBuffer.toString('hex')
      .concat(ecdsaSignature.recoveryParam.toString(16).padStart(2, '0'));
  }
  \<close>
\<close>

definition signaturePayload :: "Signature \<Rightarrow> error + string" where
  "signaturePayload ecdsaSignature =
     (case signatureToBytes ecdsaSignature of
        Inl e \<Rightarrow> Inl e
      | Inr signatureBuffer \<Rightarrow>
          (case recoveryParam ecdsaSignature of
             Some v \<Rightarrow>
               Inr (Buffer_toString_hex signatureBuffer @ padStart 2 CHR ''0'' (hex_of_nat v))
           | None \<Rightarrow> Inr []))"

text \<open>Signing an order buffer under the keys of the SDK object, up to the payload.\<close>

definition signOrderBuffer :: "Libs \<Rightarrow> HibachiEcdsaSDK \<Rightarrow> Buffer \<Rightarrow> error + string" where
  "signOrderBuffer lib sdk orderBuffer =
     (case compress_public lib (drop 2 (publicKey sdk)) of
        Inl e \<Rightarrow> Inl e
      | Inr from \<Rightarrow>
          (case signMessageSha256 lib from orderBuffer (drop 2 (privateKey sdk)) of
             Inl e \<Rightarrow> Inl e
           | Inr ecdsaSignature \<Rightarrow> signaturePayload ecdsaSignature))"

subsection \<open>\<^verbatim>\<open>HibachiEcdsaSDK.createOrder\<close>\<close>

record OrderBody =
  accountId :: int
  symbol :: string
  side :: OrderSide
  orderType :: OrderType
  quantity :: string
  maxFeesPercent :: string
  price :: string
  nonce :: int
  signature :: string

text \<open>
  \<^verbatim>\<open>createOrder\<close> also stores its nonce, body, buffer and signature in the fields
  \<^verbatim>\<open>lastNonce\<close>, \<^verbatim>\<open>lastOrderBody\<close>, \<^verbatim>\<open>lastOrderBuffer\<close> and \<^verbatim>\<open>lastSignature\<close> of the
  SDK object. No method reads them back, and they are left out here.

  The buffer that \<^verbatim>\<open>createOrder\<close> serializes. \<open>now\<close> is the reading of
  \<^verbatim>\<open>Date.now()\<close>; quantity and price are given as the strings that \<^verbatim>\<open>toString()\<close>
  makes of the arguments. The order type is not passed to the serializer.
\<close>

definition createOrder_orderBuffer ::
  "int \<Rightarrow> OrderSide \<Rightarrow> OrderType \<Rightarrow> string \<Rightarrow> string \<Rightarrow> string \<Rightarrow> int \<Rightarrow> int \<Rightarrow> Buffer" where
  "createOrder_orderBuffer now side' orderType' quantity' price' maxFeesPercent' contractId'
       underlyingDecimals =
     serializeOrder
       \<lparr>OrderPayload.nonce = now, contractId = contractId', side = side',
        price = Some price', totalQuantity = quantity',
        maxFees = Some (Number maxFeesPercent')\<rparr>
       underlyingDecimals"

definition createOrder ::
  "Libs \<Rightarrow> HibachiEcdsaSDK \<Rightarrow> int \<Rightarrow> string \<Rightarrow> OrderSide \<Rightarrow> OrderType \<Rightarrow> string \<Rightarrow> string \<Rightarrow>
   string \<Rightarrow> int \<Rightarrow> int \<Rightarrow> error + OrderBody" where
  "createOrder lib sdk now symbol' side' orderType' quantity' price' maxFeesPercent' contractId'
       underlyingDecimals =
     (let orderBuffer =
            createOrder_orderBuffer now side' orderType' quantity' price' maxFeesPercent'
              contractId' underlyingDecimals
      in case signOrderBuffer lib sdk orderBuffer of
           Inl e \<Rightarrow> Inl e
         | Inr payload \<Rightarrow>
             Inr \<lparr>OrderBody.accountId = HibachiEcdsaSDK.accountId sdk, symbol = symbol',
                  side = side', orderType = orderType', quantity = quantity',
                  maxFeesPercent = maxFeesPercent', price = price', nonce = now,
                  signature = payload\<rparr>)"

subsection \<open>\<^verbatim>\<open>HibachiEcdsaSDK.sendBatchOrder\<close>\<close>

text \<open>
  An element of a batch is an untyped object in the source. It is a record here, with
  the fields that the two SDKs and the example scripts read; the fields that the
  action of an element does not read are ignored. \<open>None\<close> is \<^verbatim>\<open>undefined\<close>. The
  field \<open>OrderId\<close>, with a capital, is read by the older SDK only.
\<close>

record BatchOrder =
  action :: string
  nonce :: "int option"
  contractId :: int
  side :: "OrderSide option"
  quantity :: string
  price :: "string option"
  updatedQuantity :: string
  updatedPrice :: "string option"
  maxFeesPercent :: string
  underlyingDecimals :: int
  orderId :: string
  OrderId :: "string option"
  signature :: string

text \<open>A side that is absent is not \<^verbatim>\<open>'ASK'\<close>, so the serializer encodes it as 1, like a bid.\<close>

definition side_of :: "OrderSide option \<Rightarrow> OrderSide" where
  "side_of v = (case v of Some ASK \<Rightarrow> ASK | _ \<Rightarrow> BID)"

text \<open>
  The \<^verbatim>\<open>switch (order.action)\<close> of \<^verbatim>\<open>sendBatchOrder\<close>, up to the buffer, for an
  element whose nonce has been set to \<open>n\<close>.
\<close>

definition sendBatchOrder_orderBuffer :: "int \<Rightarrow> BatchOrder \<Rightarrow> error + Buffer" where
  "sendBatchOrder_orderBuffer n order =
     (if action order = ''place'' then
        Inr (serializeOrder
               \<lparr>OrderPayload.nonce = n,
                OrderPayload.contractId = BatchOrder.contractId order,
                OrderPayload.side = side_of (BatchOrder.side order),
                OrderPayload.price = BatchOrder.price order,
                totalQuantity = BatchOrder.quantity order,
                maxFees = Some (Number (BatchOrder.maxFeesPercent order))\<rparr>
               (underlyingDecimals order))
      else if action order = ''modify'' then
        Inr (serializeOrder
               \<lparr>OrderPayload.nonce = n,
                OrderPayload.contractId = 2,
                OrderPayload.side = side_of (BatchOrder.side order),
                OrderPayload.price = updatedPrice order,
                totalQuantity = updatedQuantity order,
                maxFees = Some (Number (BatchOrder.maxFeesPercent order))\<rparr>
               (underlyingDecimals order))
      else if action order = ''cancel'' then Inr (serializeOrderId (orderId order))
      else Inl (UnknownActionType (action order)))"

text \<open>One turn of the loop: the element is signed, and a modified order loses its side.\<close>

definition sendBatchOrder_element ::
  "Libs \<Rightarrow> HibachiEcdsaSDK \<Rightarrow> int \<Rightarrow> BatchOrder \<Rightarrow> error + BatchOrder" where
  "sendBatchOrder_element lib sdk n order =
     (case sendBatchOrder_orderBuffer n order of
        Inl e \<Rightarrow> Inl e
      | Inr orderBuffer \<Rightarrow>
          (case signOrderBuffer lib sdk orderBuffer of
             Inl e \<Rightarrow> Inl e
           | Inr payload \<Rightarrow>
               Inr (order
                     \<lparr>BatchOrder.nonce := Some n,
                      BatchOrder.signature := payload,
                      BatchOrder.side :=
                        (if action order = ''modify'' then None else BatchOrder.side order)\<rparr>)))"

text \<open>
  The loop. \<open>now i\<close> is what \<^verbatim>\<open>Date.now()\<close> returns in turn \<open>i\<close>: the source reads the
  clock once in every turn, \<^verbatim>\<open>order.nonce = Date.now()+count\<close>, whatever nonce the
  element came with. The result is the list \<^verbatim>\<open>serializedOrders\<close> that is posted.
\<close>

fun sendBatchOrder_loop ::
  "Libs \<Rightarrow> HibachiEcdsaSDK \<Rightarrow> (nat \<Rightarrow> int) \<Rightarrow> nat \<Rightarrow> BatchOrder list \<Rightarrow> error + BatchOrder list" where
  "sendBatchOrder_loop lib sdk now count [] = Inr []"
| "sendBatchOrder_loop lib sdk now count (order # orders) =
     (case sendBatchOrder_element lib sdk (now count + int count) order of
        Inl e \<Rightarrow> Inl e
      | Inr order' \<Rightarrow>
          (case sendBatchOrder_loop lib sdk now (count + 1) orders of
             Inl e \<Rightarrow> Inl e
           | Inr rest \<Rightarrow> Inr (order' # rest)))"

definition sendBatchOrder ::
  "Libs \<Rightarrow> HibachiEcdsaSDK \<Rightarrow> (nat \<Rightarrow> int) \<Rightarrow> BatchOrder list \<Rightarrow> error + BatchOrder list" where
  "sendBatchOrder lib sdk now orders = sendBatchOrder_loop lib sdk now 0 orders"

subsection \<open>The older \<^verbatim>\<open>HibachiSDK\<close>\<close>

text \<open>
  The class \<^verbatim>\<open>HibachiSDK\<close> fixes the decimals: 10 for a quantity, \<open>-4\<close> for a price.
  Its methods are called with numbers and with strings; they are given here the
  BigNumber that \<^verbatim>\<open>new BigNumber\<close> makes of the argument.
\<close>

definition HibachiSDK_quantityFromReal :: "BigNumber \<Rightarrow> BigNumber" where
  "HibachiSDK_quantityFromReal quantity' =
     (let underlyingDecimals' = 10
      in integerValue_ROUND_DOWN (shiftedBy quantity' underlyingDecimals'))"

definition HibachiSDK_priceFromReal :: "BigNumber \<Rightarrow> BigNumber" where
  "HibachiSDK_priceFromReal price' =
     (let decimals = - 4
      in integerValue_ROUND_DOWN (multipliedBy (shiftedBy price' decimals) PRICE_MULTIPLIER))"

text \<open>\<^verbatim>\<open>new BigNumber(v)\<close> of a string that may be undefined.\<close>

definition BigNumber_of_optional :: "string option \<Rightarrow> BigNumber" where
  "BigNumber_of_optional v = (case v of None \<Rightarrow> NaN | Some str \<Rightarrow> BigNumber_of_string str)"

text \<open>
  \<^verbatim>\<open>HibachiSDK.DigestSerializer.serializeOrder(payload, sdk)\<close>: the fees are scaled
  like a quantity.
\<close>

definition HibachiSDK_serializeOrder :: "OrderPayload \<Rightarrow> Buffer" where
  "HibachiSDK_serializeOrder payload =
     (let totalQuantity' =
            HibachiSDK_quantityFromReal (BigNumber_of_number (Number (totalQuantity payload)));
          price' = (case OrderPayload.price payload of
                      None \<Rightarrow> None
                    | Some str \<Rightarrow>
                        if truthy (OrderPayload.price payload)
                        then Some (HibachiSDK_priceFromReal (BigNumber_of_number (Number str)))
                        else None);
          maxFees' = HibachiSDK_quantityFromReal
                       (case maxFees payload of Some f \<Rightarrow> BigNumber_of_number f | None \<Rightarrow> NaN)
      in toBytes (BigNumber_of_int (OrderPayload.nonce payload)) 8 @
         toBytes (BigNumber_of_int (OrderPayload.contractId payload)) 4 @
         toBytes totalQuantity' 8 @
         toBytes (BigNumber_of_int (if OrderPayload.side payload = ASK then 0 else 1)) 4 @
         (case price' of Some pr \<Rightarrow> toBytes pr 8 | None \<Rightarrow> []) @
         toBytes maxFees' 8)"

definition HibachiSDK_serializeEditPayload :: "BatchOrder \<Rightarrow> Buffer" where
  "HibachiSDK_serializeEditPayload payload =
     toBytes (BigNumber_of_optional (OrderId payload)) 8 @
     toBytes (case BatchOrder.nonce payload of Some n \<Rightarrow> BigNumber_of_int n | None \<Rightarrow> NaN) 8 @
     toBytes (HibachiSDK_quantityFromReal (BigNumber_of_string (updatedQuantity payload))) 8 @
     toBytes (HibachiSDK_priceFromReal (BigNumber_of_optional (updatedPrice payload))) 8"

definition HibachiSDK_orderBuffer :: "int \<Rightarrow> BatchOrder \<Rightarrow> error + Buffer" where
  "HibachiSDK_orderBuffer n order =
     (if action order = ''place'' then
        Inr (HibachiSDK_serializeOrder
               \<lparr>OrderPayload.nonce = n,
                OrderPayload.contractId = 2,
                OrderPayload.side = side_of (BatchOrder.side order),
                OrderPayload.price = BatchOrder.price order,
                totalQuantity = BatchOrder.quantity order,
                maxFees = Some (Num 0)\<rparr>)
      else if action order = ''modify'' then
        Inr (HibachiSDK_serializeEditPayload (order\<lparr>BatchOrder.nonce := Some n\<rparr>))
      else if action order = ''cancel'' then Inr (serializeOrderId (orderId order))
      else Inl (UnknownActionType (action order)))"

text \<open>
  \<^verbatim>\<open>HibachiSDK.sendBatchOrder\<close>. The source sets a nonce only where the element has
  none (or a zero), under the comment \<^verbatim>\<open>Generate a unique nonce for each order if not provided\<close>:
  \<^verbatim>\<open>if (!order.nonce) { order.nonce = Date.now(); }\<close>
  \<open>now k\<close> is the \<open>k\<close>-th reading of the clock, \<open>calls\<close> counts the readings made, and
  \<open>hmac\<close> is \<^verbatim>\<open>crypto.createHmac('sha256', this.hmacKey).update(b).digest('hex')\<close>.
\<close>

fun HibachiSDK_sendBatchOrder_loop ::
  "(Buffer \<Rightarrow> string) \<Rightarrow> (nat \<Rightarrow> int) \<Rightarrow> nat \<Rightarrow> BatchOrder list \<Rightarrow> error + BatchOrder list" where
  "HibachiSDK_sendBatchOrder_loop hmac now calls [] = Inr []"
| "HibachiSDK_sendBatchOrder_loop hmac now calls (order # orders) =
     (let missing = (case BatchOrder.nonce order of None \<Rightarrow> True | Some m \<Rightarrow> m = 0);
          n = (case BatchOrder.nonce order of
                 None \<Rightarrow> now calls
               | Some m \<Rightarrow> if m = 0 then now calls else m);
          calls' = (if missing then calls + 1 else calls)
      in case HibachiSDK_orderBuffer n order of
           Inl e \<Rightarrow> Inl e
         | Inr orderBuffer \<Rightarrow>
             (case HibachiSDK_sendBatchOrder_loop hmac now calls' orders of
                Inl e \<Rightarrow> Inl e
              | Inr rest \<Rightarrow>
                  Inr (order\<lparr>BatchOrder.nonce := Some n,
                             BatchOrder.signature := hmac orderBuffer\<rparr> # rest)))"

definition HibachiSDK_sendBatchOrder ::
  "(Buffer \<Rightarrow> string) \<Rightarrow> (nat \<Rightarrow> int) \<Rightarrow> BatchOrder list \<Rightarrow> error + BatchOrder list" where
  "HibachiSDK_sendBatchOrder hmac now orders = HibachiSDK_sendBatchOrder_loop hmac now 0 orders"

subsection \<open>The specification's side\<close>

text \<open>
  The definitions of this subsection follow the words of the specification, to be
  compared with the code: truncation towards zero, the three scalings, and the value
  that a big-endian byte string denotes (\<open>be_bytes\<close> above is its encoder).
\<close>

definition truncate_toward_zero :: "rat \<Rightarrow> int" where
  "truncate_toward_zero q = (if q < 0 then - \<lfloor>- q\<rfloor> else \<lfloor>q\<rfloor>)"

definition quantityToInteger :: "rat \<Rightarrow> int \<Rightarrow> int" where
  "quantityToInteger v d = truncate_toward_zero (v * 10 powi d)"

definition priceToInteger :: "rat \<Rightarrow> int \<Rightarrow> int" where
  "priceToInteger v d = truncate_toward_zero (v * 10 powi (6 - d) * 2 ^ 32)"

definition feePercentToInteger :: "rat \<Rightarrow> int" where
  "feePercentToInteger v = truncate_toward_zero (v * 10 ^ 8)"

definition be_value :: "Buffer \<Rightarrow> nat" where
  "be_value bs = foldl (\<lambda>acc b. 256 * acc + unat b) 0 bs"

text \<open>
  The order layout of the specification, on scaled fields:
  nonce(8), contractId(4), quantity(8), side(4, 0 for ASK and 1 for BID), the price(8)
  when there is one, the fees(8).
\<close>

definition order_layout :: "nat \<Rightarrow> nat \<Rightarrow> nat \<Rightarrow> OrderSide \<Rightarrow> nat option \<Rightarrow> nat \<Rightarrow> Buffer" where
  "order_layout nonce' contractId' scaledQuantity side' scaledPrice scaledMaxFees =
     be_bytes 8 nonce' @ be_bytes 4 contractId' @ be_bytes 8 scaledQuantity @
     be_bytes 4 (case side' of ASK \<Rightarrow> 0 | BID \<Rightarrow> 1) @
     (case scaledPrice of Some pr \<Rightarrow> be_bytes 8 pr | None \<Rightarrow> []) @
     be_bytes 8 scaledMaxFees"

section \<open>Properties of the library model\<close>

subsection \<open>Hexadecimal strings and big-endian bytes\<close>

lemma hex_val_hex_digit: "d < 16 \<Longrightarrow> hex_val (hex_digit d) = Some d"
proof -
  assume "d < 16"
  then have "d = 0 \<or> d = 1 \<or> d = 2 \<or> d = 3 \<or> d = 4 \<or> d = 5 \<or> d = 6 \<or> d = 7
    \<or> d = 8 \<or> d = 9 \<or> d = 10 \<or> d = 11 \<or> d = 12 \<or> d = 13 \<or> d = 14 \<or> d = 15"
    by presburger
  then show ?thesis
    by (elim disjE) (simp_all add: hex_val_def hex_digit_def)
qed

lemma length_hex_fixed [simp]: "length (hex_fixed k n) = k"
  by (induction k arbitrary: n) auto

lemma hex_fixed_zero: "hex_fixed j 0 = replicate j CHR ''0''"
  by (induction j) (auto simp: hex_digit_def replicate_append_same)

lemma hex_fixed_lead:
  "n < 16 ^ k \<Longrightarrow> hex_fixed (j + k) n = replicate j CHR ''0'' @ hex_fixed k n"
proof (induction k arbitrary: n)
  case 0
  then show ?case by (simp add: hex_fixed_zero)
next
  case (Suc k)
  then have "n div 16 < 16 ^ k" by (simp add: less_mult_imp_div_less)
  with Suc.IH show ?case by simp
qed

lemma hex_of_nat_fixed: "hex_fixed (length (hex_of_nat n)) n = hex_of_nat n"
proof (induction n rule: hex_of_nat.induct)
  case (1 n)
  show ?case
  proof (cases "n < 16")
    case True
    then show ?thesis by (simp add: hex_of_nat.simps)
  next
    case False
    with 1 show ?thesis by (simp add: hex_of_nat.simps [of n])
  qed
qed

lemma hex_of_nat_bound: "n < 16 ^ length (hex_of_nat n)"
proof (induction n rule: hex_of_nat.induct)
  case (1 n)
  show ?case
  proof (cases "n < 16")
    case True
    then show ?thesis by (simp add: hex_of_nat.simps)
  next
    case False
    with 1 have "n div 16 < 16 ^ length (hex_of_nat (n div 16))" by simp
    then have "n < 16 * 16 ^ length (hex_of_nat (n div 16))"
      by (simp add: div_less_iff_less_mult mult.commute)
    with False show ?thesis by (simp add: hex_of_nat.simps [of n])
  qed
qed

lemma length_hex_of_nat_le: "n < 16 ^ k \<Longrightarrow> 0 < k \<Longrightarrow> length (hex_of_nat n) \<le> k"
proof (induction n arbitrary: k rule: hex_of_nat.induct)
  case (1 n)
  show ?case
  proof (cases "n < 16")
    case True
    with 1(3) show ?thesis by (simp add: hex_of_nat.simps)
  next
    case False
    from 1(3) obtain k' where k: "k = Suc k'" by (cases k) auto
    from False 1(2) k have "0 < k'" by (cases k') auto
    moreover from 1(2) k have "n div 16 < 16 ^ k'" by (simp add: less_mult_imp_div_less)
    ultimately have "length (hex_of_nat (n div 16)) \<le> k'" using 1(1) False by simp
    with False k show ?thesis by (simp add: hex_of_nat.simps [of n])
  qed
qed

lemma length_hex_of_nat_gt:
  assumes "16 ^ k \<le> n"
  shows "k < length (hex_of_nat n)"
proof -
  have "(16::nat) ^ k < 16 ^ length (hex_of_nat n)"
    using assms hex_of_nat_bound [of n] by linarith
  then show ?thesis by (rule power_less_imp_less_exp [rotated]) simp
qed

lemma padStart_hex_of_nat:
  assumes "n < 16 ^ k" "0 < k"
  shows "padStart k CHR ''0'' (hex_of_nat n) = hex_fixed k n"
proof -
  let ?L = "length (hex_of_nat n)"
  have "?L \<le> k" using assms by (rule length_hex_of_nat_le)
  then have "k = (k - ?L) + ?L" by simp
  then have "hex_fixed k n = replicate (k - ?L) CHR ''0'' @ hex_fixed ?L n"
    using hex_fixed_lead [OF hex_of_nat_bound, of "k - ?L" n] by simp
  then show ?thesis by (simp add: padStart_def hex_of_nat_fixed)
qed

lemma padStart_long: "k \<le> length str \<Longrightarrow> padStart k c str = str"
  by (simp add: padStart_def)

lemma byte_of_nibbles: "16 * (n div 16 mod 16) + n mod 16 = n mod 256" for n :: nat
  using mod_mult2_eq [of n 16 16] by simp

lemma Buffer_from_hex_fixed:
  "Buffer_from_hex (hex_fixed (2 * w) n @ rest) = be_bytes w n @ Buffer_from_hex rest"
proof (induction w arbitrary: n rest)
  case 0
  then show ?case by simp
next
  case (Suc w)
  have d: "n div 16 div 16 = n div 256" by (simp add: div_mult2_eq)
  have "hex_fixed (2 * Suc w) n @ rest =
        hex_fixed (2 * w) (n div 256) @ (hex_digit (n div 16 mod 16) # hex_digit (n mod 16) # rest)"
    by (simp add: d)
  then show ?case
    by (simp only: Suc.IH be_bytes.simps Buffer_from_hex.simps)
       (simp add: hex_val_hex_digit byte_of_nibbles)
qed

lemma Buffer_from_hex_fixed_even: "Buffer_from_hex (hex_fixed (2 * w) n) = be_bytes w n"
  using Buffer_from_hex_fixed [of w n "[]"] by simp

lemma Buffer_from_hex_fixed_odd:
  "Buffer_from_hex (hex_fixed (Suc (2 * w)) n) = be_bytes w (n div 16)"
  using Buffer_from_hex_fixed [of w "n div 16" "[hex_digit (n mod 16)]"] by simp

lemma hex_of_magnitude_nat: "hex_of_magnitude (of_nat n) = hex_of_nat n"
proof -
  have e: "(of_nat n :: rat) * 16 ^ 20 + 1 / 2 = of_int (int (n * 16 ^ 20)) + 1 / 2"
    by simp
  have "\<lfloor>(of_int (int (n * 16 ^ 20)) :: rat) + 1 / 2\<rfloor> = int (n * 16 ^ 20)"
    by (rule floor_unique) simp_all
  then have "nat \<lfloor>(of_nat n :: rat) * 16 ^ 20 + 1 / 2\<rfloor> = n * 16 ^ 20"
    by (simp only: e nat_int)
  then show ?thesis
    unfolding hex_of_magnitude_def Let_def by simp
qed

lemma toString16_nat: "toString16 (Finite (of_nat n)) = hex_of_nat n"
  by (simp add: toString16_def hex_of_magnitude_nat)

lemma length_be_bytes [simp]: "length (be_bytes w n) = w"
  by (induction w arbitrary: n) auto

lemma be_value_be_bytes: "n < 256 ^ w \<Longrightarrow> be_value (be_bytes w n) = n"
proof (induction w arbitrary: n)
  case 0
  then show ?case by (simp add: be_value_def)
next
  case (Suc w)
  then have "n div 256 < 256 ^ w" by (simp add: less_mult_imp_div_less)
  with Suc.IH have "be_value (be_bytes w (n div 256)) = n div 256" by simp
  then show ?case by (simp add: be_value_def unat_of_nat)
qed

lemma toBytes_fits: "n < 256 ^ w \<Longrightarrow> toBytes (Finite (of_nat n)) w = be_bytes w n"
proof (cases "w = 0")
  case True
  assume "n < 256 ^ w"
  with True have "n = 0" by simp
  with True show ?thesis
    using toString16_nat [of 0]
    by (simp add: toBytes_def padStart_def hex_of_nat.simps)
next
  case False
  assume "n < 256 ^ w"
  then have "n < 16 ^ (2 * w)" by (simp add: power_mult)
  with False show ?thesis
    by (simp add: toBytes_def toString16_nat padStart_hex_of_nat Buffer_from_hex_fixed_even)
qed

lemma toBytes_too_large:
  assumes "256 ^ w \<le> n"
  shows "toBytes (Finite (of_nat n)) w =
         be_bytes (length (hex_of_nat n) div 2) (n div 16 ^ (length (hex_of_nat n) mod 2))"
proof -
  let ?L = "length (hex_of_nat n)"
  from assms have "16 ^ (2 * w) \<le> n" by (simp add: power_mult)
  then have "2 * w < ?L" by (rule length_hex_of_nat_gt)
  then have pad: "padStart (2 * w) CHR ''0'' (hex_of_nat n) = hex_of_nat n"
    by (simp add: padStart_long)
  have fixed: "hex_of_nat n = hex_fixed ?L n" by (simp add: hex_of_nat_fixed)
  show ?thesis
  proof (cases "even ?L")
    case True
    then obtain m where m: "?L = 2 * m" by (auto elim: evenE)
    then have "Buffer_from_hex (hex_of_nat n) = be_bytes m n"
      using fixed Buffer_from_hex_fixed_even [of m n] by simp
    with m show ?thesis by (simp add: toBytes_def toString16_nat pad)
  next
    case False
    then obtain m where m: "?L = Suc (2 * m)" by (auto elim: oddE)
    then have "Buffer_from_hex (hex_of_nat n) = be_bytes m (n div 16)"
      using fixed Buffer_from_hex_fixed_odd [of m n] by simp
    with m show ?thesis by (simp add: toBytes_def toString16_nat pad)
  qed
qed

subsection \<open>Scaling and fixed-width fields\<close>

lemma be_bytes_numeral:
  "be_bytes (numeral k) n = be_bytes (pred_numeral k) (n div 256) @ [of_nat (n mod 256)]"
  by (simp only: numeral_eq_Suc [of k] be_bytes.simps)

lemma hex_fixed_numeral:
  "hex_fixed (numeral k) n = hex_fixed (pred_numeral k) (n div 16) @ [hex_digit (n mod 16)]"
  by (simp only: numeral_eq_Suc [of k] hex_fixed.simps)

lemma integerValue_truncate:
  "integerValue_ROUND_DOWN (Finite q) = Finite (of_int (truncate_toward_zero q))"
  by (simp add: integerValue_ROUND_DOWN_def truncate_toward_zero_def ceiling_def)

lemma quantityFromReal_Num:
  "quantityFromReal (Num q) d = Finite (of_int (quantityToInteger q d))"
  by (simp add: quantityFromReal_def quantityToInteger_def shiftedBy_def
      BigNumber_of_number_def integerValue_truncate)

lemma priceFromReal_Num:
  "priceFromReal (Num p) d = Finite (of_int (priceToInteger p d))"
  by (simp add: priceFromReal_def priceToInteger_def shiftedBy_def PRICE_MULTIPLIER_def
      BigNumber_of_number_def integerValue_truncate)

lemma toBytes_int:
  assumes "0 \<le> i" "i < 256 ^ w"
  shows "toBytes (Finite (of_int i)) w = be_bytes w (nat i)"
proof -
  from assms have "nat i < 256 ^ w" by (simp add: nat_less_iff)
  then have "toBytes (Finite (of_nat (nat i))) w = be_bytes w (nat i)" by (rule toBytes_fits)
  with assms(1) show ?thesis by simp
qed


lemma floor_numeral_quotient:
  "\<lfloor>(numeral a :: rat) / numeral b\<rfloor> = numeral a div numeral b"
  using floor_divide_of_int_eq [of "numeral a" "numeral b", where ?'a = rat] by simp

lemmas Number_eval =
  Number_def trim_def is_space_def parse_prefixed_def parse_decimal_def
  digits_ok_def digits_nat_def hex_val_def parse_exponent_def

lemma feesPercentWithDecimal_Finite:
  "feesPercentWithDecimal (Finite f) = Finite (f * 10 ^ 8)"
  by (simp add: feesPercentWithDecimal_def FEE_MULTIPLIER_def)

lemma truncate_nonpos: "q \<le> 0 \<Longrightarrow> truncate_toward_zero q \<le> 0"
  by (auto simp: truncate_toward_zero_def)

lemma length_Buffer_toString_hex: "length (Buffer_toString_hex bs) = 2 * length bs"
  by (induction bs) (simp_all add: Buffer_toString_hex_def)

subsection \<open>The fields of an order digest\<close>

lemma serializeOrder_fields:
  "serializeOrder p d =
     toBytes (BigNumber_of_int (OrderPayload.nonce p)) 8 @
     toBytes (BigNumber_of_int (OrderPayload.contractId p)) 4 @
     toBytes (quantityFromReal (Number (totalQuantity p)) d) 8 @
     toBytes (BigNumber_of_int (if OrderPayload.side p = ASK then 0 else 1)) 4 @
     (if truthy (OrderPayload.price p)
      then toBytes (priceFromReal (Number (the (OrderPayload.price p))) d) 8 else []) @
     toBytes (feesPercentWithDecimal
                (case maxFees p of Some f \<Rightarrow> BigNumber_of_number f | None \<Rightarrow> BigNumber_of_int 0)) 8"
  by (simp add: serializeOrder_def Let_def truthy_def split: option.splits)

lemma toBytes_BigNumber_of_int:
  "0 \<le> i \<Longrightarrow> i < 256 ^ w \<Longrightarrow> toBytes (BigNumber_of_int i) w = be_bytes w (nat i)"
  by (simp add: BigNumber_of_int_def toBytes_int)

lemma side_field:
  "toBytes (BigNumber_of_int (if sd = ASK then 0 else 1)) 4 =
   be_bytes 4 (case sd of ASK \<Rightarrow> 0 | BID \<Rightarrow> 1)"
  using toBytes_BigNumber_of_int [of 0 4] toBytes_BigNumber_of_int [of 1 4]
  by (cases sd) simp_all

lemma quantity_field:
  assumes "Number str = Num q" "0 \<le> quantityToInteger q d" "quantityToInteger q d < 2 ^ 64"
  shows "toBytes (quantityFromReal (Number str) d) 8 = be_bytes 8 (nat (quantityToInteger q d))"
  using assms toBytes_int [of "quantityToInteger q d" 8] by (simp add: quantityFromReal_Num)

lemma price_field:
  assumes "Number str = Num pr" "0 \<le> priceToInteger pr d" "priceToInteger pr d < 2 ^ 64"
  shows "toBytes (priceFromReal (Number str) d) 8 = be_bytes 8 (nat (priceToInteger pr d))"
  using assms toBytes_int [of "priceToInteger pr d" 8] by (simp add: priceFromReal_Num)

lemma fees_field:
  assumes "mf = Some (Num f) \<or> mf = None \<and> f = 0"
    and "f * 10 ^ 8 = of_int (feePercentToInteger f)"
    and "0 \<le> feePercentToInteger f" "feePercentToInteger f < 2 ^ 64"
  shows "toBytes (feesPercentWithDecimal
                    (case mf of Some f \<Rightarrow> BigNumber_of_number f | None \<Rightarrow> BigNumber_of_int 0)) 8 =
         be_bytes 8 (nat (feePercentToInteger f))"
proof -
  from assms(1) have "(case mf of Some f \<Rightarrow> BigNumber_of_number f | None \<Rightarrow> BigNumber_of_int 0) = Finite f"
    by (auto simp: BigNumber_of_number_def BigNumber_of_int_def)
  then show ?thesis
    using assms(2-) toBytes_int [of "feePercentToInteger f" 8]
    by (simp add: feesPercentWithDecimal_Finite)
qed

lemma serializeOrder_order_layout:
  assumes "0 \<le> OrderPayload.nonce p" "OrderPayload.nonce p < 2 ^ 64"
    and "0 \<le> OrderPayload.contractId p" "OrderPayload.contractId p < 2 ^ 32"
    and "Number (totalQuantity p) = Num q"
    and "0 \<le> quantityToInteger q d" "quantityToInteger q d < 2 ^ 64"
    and "truthy (OrderPayload.price p) \<longrightarrow>
           Number (the (OrderPayload.price p)) = Num pr \<and>
           0 \<le> priceToInteger pr d \<and> priceToInteger pr d < 2 ^ 64"
    and "maxFees p = Some (Num f) \<or> maxFees p = None \<and> f = 0"
    and "f * 10 ^ 8 = of_int (feePercentToInteger f)"
    and "0 \<le> feePercentToInteger f" "feePercentToInteger f < 2 ^ 64"
  shows "serializeOrder p d =
           order_layout (nat (OrderPayload.nonce p)) (nat (OrderPayload.contractId p))
             (nat (quantityToInteger q d)) (OrderPayload.side p)
             (if truthy (OrderPayload.price p) then Some (nat (priceToInteger pr d)) else None)
             (nat (feePercentToInteger f))"
proof -
  have n: "toBytes (BigNumber_of_int (OrderPayload.nonce p)) 8 = be_bytes 8 (nat (OrderPayload.nonce p))"
    using assms(1,2) by (simp add: toBytes_BigNumber_of_int)
  have c: "toBytes (BigNumber_of_int (OrderPayload.contractId p)) 4 =
           be_bytes 4 (nat (OrderPayload.contractId p))"
    using assms(3,4) by (simp add: toBytes_BigNumber_of_int)
  have q: "toBytes (quantityFromReal (Number (totalQuantity p)) d) 8 =
           be_bytes 8 (nat (quantityToInteger q d))"
    using assms(5-7) by (rule quantity_field)
  have pr: "toBytes (priceFromReal (Number (the (OrderPayload.price p))) d) 8 =
            be_bytes 8 (nat (priceToInteger pr d))" if "truthy (OrderPayload.price p)"
  proof -
    from that assms(8) have "Number (the (OrderPayload.price p)) = Num pr"
      and "0 \<le> priceToInteger pr d" and "priceToInteger pr d < 2 ^ 64"
      by blast+
    then show ?thesis by (rule price_field)
  qed
  have f: "toBytes (feesPercentWithDecimal
             (case maxFees p of Some f \<Rightarrow> BigNumber_of_number f | None \<Rightarrow> BigNumber_of_int 0)) 8 =
           be_bytes 8 (nat (feePercentToInteger f))"
    using assms(9-12) by (rule fees_field)
  show ?thesis
    unfolding serializeOrder_fields n c q f side_field order_layout_def
    by (simp add: pr)
qed

lemma length_order_layout:
  "length (order_layout n c q sd pr f) = (case pr of Some _ \<Rightarrow> 40 | None \<Rightarrow> 32)"
  by (simp add: order_layout_def split: option.splits)

subsection \<open>Batches\<close>

lemma contractId_bytes:
  assumes "0 \<le> n" "n < 2 ^ 64" "0 \<le> c" "c < 2 ^ 32"
    and "OrderPayload.nonce p = n" "OrderPayload.contractId p = c"
  shows "take 4 (drop 8 (serializeOrder p d)) = be_bytes 4 (nat c)"
proof -
  have n: "toBytes (BigNumber_of_int n) 8 = be_bytes 8 (nat n)"
    using assms(1,2) by (simp add: toBytes_BigNumber_of_int)
  have c: "toBytes (BigNumber_of_int c) 4 = be_bytes 4 (nat c)"
    using assms(3,4) by (simp add: toBytes_BigNumber_of_int)
  show ?thesis
    unfolding serializeOrder_fields assms(5,6) n c by simp
qed

lemma sendBatchOrder_element_nonce:
  "sendBatchOrder_element lib sdk n order = Inr order' \<Longrightarrow> BatchOrder.nonce order' = Some n"
  by (auto simp: sendBatchOrder_element_def split: sum.splits)

lemma sendBatchOrder_loop_nonces:
  "sendBatchOrder_loop lib sdk now count orders = Inr res \<Longrightarrow>
   map BatchOrder.nonce res =
     map (\<lambda>i. Some (now (count + i) + int (count + i))) [0..<length orders]"
proof (induction orders arbitrary: count res)
  case Nil
  then show ?case by simp
next
  case (Cons order orders)
  from Cons.prems obtain order' rest where
    e: "sendBatchOrder_element lib sdk (now count + int count) order = Inr order'" and
    r: "sendBatchOrder_loop lib sdk now (count + 1) orders = Inr rest" and
    res: "res = order' # rest"
    by (auto split: sum.splits)
  have "map BatchOrder.nonce rest =
        map (\<lambda>i. Some (now (count + 1 + i) + int (count + 1 + i))) [0..<length orders]"
    using r by (rule Cons.IH)
  also have "\<dots> = map (\<lambda>i. Some (now (count + i) + int (count + i))) [1..<Suc (length orders)]"
    by (simp add: map_Suc_upt [symmetric] del: upt_Suc)
  finally show ?case
    using sendBatchOrder_element_nonce [OF e] res
    by (simp add: upt_rec [of 0] del: upt_Suc)
qed

lemma sendBatchOrder_nonces_increasing:
  assumes "sendBatchOrder lib sdk now orders = Inr res"
    and "\<And>i j. i \<le> j \<Longrightarrow> now i \<le> now j"
  shows "sorted_wrt (<) (map (\<lambda>i. now i + int i) [0..<length orders]) \<and>
         map BatchOrder.nonce res = map (\<lambda>i. Some (now i + int i)) [0..<length orders]"
proof
  show "sorted_wrt (<) (map (\<lambda>i. now i + int i) [0..<length orders])"
  proof (simp add: sorted_wrt_map sorted_wrt_iff_nth_less, intro allI impI)
    fix i j :: nat
    assume "i < j"
    then have "now i \<le> now j" by (simp add: assms(2))
    with \<open>i < j\<close> show "now i + int i < now j + int j" by simp
  qed
  show "map BatchOrder.nonce res = map (\<lambda>i. Some (now i + int i)) [0..<length orders]"
    using sendBatchOrder_loop_nonces [of lib sdk now 0 orders res] assms(1)
    by (simp add: sendBatchOrder_def)
qed

section \<open>The claims\<close>

subsection \<open>C1: the layout of an order digest\<close>



subsection \<open>C2: the scaling of a price\<close>

text \<open>
  Claim C2. For every decimal price \<open>p\<close> and asset precision \<open>d\<close>, the conversion of
  the price is \<open>p\<close> times \<open>10^(6 - d)\<close> times \<open>2^32\<close>, truncated towards zero.
\<close>

theorem priceFromReal_scaling:
  "priceFromReal (Num p) d =
   Finite (of_int (truncate_toward_zero (p * 10 powi (6 - d) * 2 ^ 32)))"
  using priceFromReal_Num [of p d] by (simp add: priceToInteger_def)

text \<open>
  The price 100004.0 at precision 8 becomes 4295139094691, which is
  \<open>100004 * 10^(-2) * 2^32 = 4295139094691.84\<close> truncated.
\<close>

theorem priceFromReal_scaling_witness:
  "priceFromReal (Number ''100004.0'') 8 = Finite 4295139094691"
proof -
  have n: "Number ''100004.0'' = Num 100004"
    by (simp add: Number_eval)
  have v: "truncate_toward_zero (100004 * 10 powi (6 - 8) * 2 ^ 32) = 4295139094691"
    by (simp add: truncate_toward_zero_def power_int_def power_divide floor_eq_iff)
  from priceFromReal_scaling [of 100004 8] show ?thesis
    unfolding n v by simp
qed

subsection \<open>C3: an order without a price\<close>

text \<open>
  Claim C3 says that a MARKET order, and any order without a price, omits the price
  field, and that the digest of a MARKET order is 24 bytes shorter than that of the
  same LIMIT order. The code does not look at the order type, and the field is 8 bytes:
  with the same price, the MARKET and the LIMIT order of the scenario both have a
  digest of 40 bytes, and with an empty price the digest has 32 bytes.
\<close>

theorem price_omission_counterexample:
  "length (createOrder_orderBuffer 1700000000000 ASK LIMIT ''0.00001'' ''100004.0'' ''0.045'' 2 8)
     = 40 \<and>
   length (createOrder_orderBuffer 1700000000000 ASK MARKET ''0.00001'' ''100004.0'' ''0.045'' 2 8)
     = 40 \<and>
   length (createOrder_orderBuffer 1700000000000 ASK MARKET ''0.00001'' '''' ''0.045'' 2 8)
     = 32"
proof -
  have q: "Number ''0.00001'' = Num (1 / 100000)" by (simp add: Number_eval)
  have pr: "Number ''100004.0'' = Num 100004" by (simp add: Number_eval)
  have f: "Number ''0.045'' = Num (9 / 200)" by (simp add: Number_eval)
  have qi: "quantityToInteger (1 / 100000) 8 = 1000"
    by (simp add: quantityToInteger_def truncate_toward_zero_def)
  have pi: "priceToInteger 100004 8 = 4295139094691"
    by (simp add: priceToInteger_def truncate_toward_zero_def power_int_def power_divide
        floor_eq_iff)
  have fi: "feePercentToInteger (9 / 200) = 4500000"
    by (simp add: feePercentToInteger_def truncate_toward_zero_def)
  have l: "length (serializeOrder
             \<lparr>OrderPayload.nonce = 1700000000000, OrderPayload.contractId = 2,
              OrderPayload.side = ASK, OrderPayload.price = Some str,
              totalQuantity = ''0.00001'', maxFees = Some (Number ''0.045'')\<rparr> 8) =
           (if str = [] then 32 else 40)" if "str = [] \<or> str = ''100004.0''" for str
    using that
    by (subst serializeOrder_order_layout [where q = "1 / 100000" and pr = 100004 and f = "9 / 200"])
       (auto simp: q pr f qi pi fi truthy_def length_order_layout)
  show ?thesis
    by (simp add: createOrder_orderBuffer_def l)
qed

text \<open>
  Claim C3, amended. An order whose price is absent (undefined or the empty string)
  has no price field in its digest: the digest is that of the same order with a price,
  without the 8 bytes of the price, and so 8 bytes shorter. The order type does not
  enter the digest: \<^verbatim>\<open>createOrder\<close> builds the same buffer for MARKET and for LIMIT.
  (The price of the order with a price is a number whose scaled value fits 8 bytes.)
\<close>

theorem price_omission:
  assumes "truthy (OrderPayload.price p)"
    and "Number (the (OrderPayload.price p)) = Num pr"
    and "0 \<le> priceToInteger pr d" "priceToInteger pr d < 2 ^ 64"
  shows "(\<exists>a b. serializeOrder p d = a @ be_bytes 8 (nat (priceToInteger pr d)) @ b \<and>
                serializeOrder (p\<lparr>OrderPayload.price := None\<rparr>) d = a @ b) \<and>
         length (serializeOrder p d) =
           length (serializeOrder (p\<lparr>OrderPayload.price := None\<rparr>) d) + 8 \<and>
         serializeOrder (p\<lparr>OrderPayload.price := Some []\<rparr>) d =
           serializeOrder (p\<lparr>OrderPayload.price := None\<rparr>) d \<and>
         createOrder_orderBuffer now sd MARKET qty prc fee cid d' =
           createOrder_orderBuffer now sd LIMIT qty prc fee cid d'"
proof -
  let ?a = "toBytes (BigNumber_of_int (OrderPayload.nonce p)) 8 @
            toBytes (BigNumber_of_int (OrderPayload.contractId p)) 4 @
            toBytes (quantityFromReal (Number (totalQuantity p)) d) 8 @
            toBytes (BigNumber_of_int (if OrderPayload.side p = ASK then 0 else 1)) 4"
  let ?b = "toBytes (feesPercentWithDecimal
              (case maxFees p of Some f \<Rightarrow> BigNumber_of_number f | None \<Rightarrow> BigNumber_of_int 0)) 8"
  have pf: "toBytes (priceFromReal (Number (the (OrderPayload.price p))) d) 8 =
            be_bytes 8 (nat (priceToInteger pr d))"
    using assms(2-4) by (rule price_field)
  have with_price: "serializeOrder p d = ?a @ be_bytes 8 (nat (priceToInteger pr d)) @ ?b"
    using assms(1) by (simp add: serializeOrder_fields pf)
  have without: "serializeOrder (p\<lparr>OrderPayload.price := None\<rparr>) d = ?a @ ?b"
    by (simp add: serializeOrder_fields truthy_def)
  have empty: "serializeOrder (p\<lparr>OrderPayload.price := Some []\<rparr>) d = ?a @ ?b"
    by (simp add: serializeOrder_fields truthy_def)
  have "\<exists>a b. serializeOrder p d = a @ be_bytes 8 (nat (priceToInteger pr d)) @ b \<and>
              serializeOrder (p\<lparr>OrderPayload.price := None\<rparr>) d = a @ b"
    using with_price without by blast
  moreover have "length (serializeOrder p d) =
      length (serializeOrder (p\<lparr>OrderPayload.price := None\<rparr>) d) + 8"
    unfolding with_price without by simp
  moreover have "createOrder_orderBuffer now sd MARKET qty prc fee cid d' =
      createOrder_orderBuffer now sd LIMIT qty prc fee cid d'"
    by (simp add: createOrder_orderBuffer_def)
  ultimately show ?thesis using without empty by simp
qed

text \<open>
  The order of the scenario, with its price and without.
\<close>

theorem price_omission_witness:
  "length (serializeOrder
     \<lparr>OrderPayload.nonce = 1700000000000, OrderPayload.contractId = 2,
      OrderPayload.side = ASK, OrderPayload.price = Some ''100004.0'',
      totalQuantity = ''0.00001'', maxFees = Some (Number ''0.045'')\<rparr> 8) =
   length (serializeOrder
     \<lparr>OrderPayload.nonce = 1700000000000, OrderPayload.contractId = 2,
      OrderPayload.side = ASK, OrderPayload.price = None,
      totalQuantity = ''0.00001'', maxFees = Some (Number ''0.045'')\<rparr> 8) + 8"
proof -
  let ?p = "\<lparr>OrderPayload.nonce = 1700000000000, OrderPayload.contractId = 2,
             OrderPayload.side = ASK, OrderPayload.price = Some ''100004.0'',
             totalQuantity = ''0.00001'', maxFees = Some (Number ''0.045'')\<rparr>"
  have pr: "Number ''100004.0'' = Num 100004" by (simp add: Number_eval)
  have pi: "priceToInteger 100004 8 = 4295139094691"
    by (simp add: priceToInteger_def truncate_toward_zero_def power_int_def power_divide
        floor_eq_iff)
  have "truthy (OrderPayload.price ?p)" by (simp add: truthy_def)
  moreover have "Number (the (OrderPayload.price ?p)) = Num 100004" by (simp add: pr)
  moreover have "0 \<le> priceToInteger 100004 8" "priceToInteger 100004 8 < 2 ^ 64"
    by (simp_all add: pi)
  ultimately show ?thesis
    using price_omission [of ?p 100004 8] by simp
qed

subsection \<open>C4: fixed-width encoding\<close>

text \<open>
  Claim C4 says that encoding an integer that needs 9 bytes into 8 bytes fails with
  IntegerTooLarge. \<^verbatim>\<open>toBytes\<close> raises nothing: \<open>2^64\<close> has 17 hexadecimal digits,
  the padding adds none, and the decoder reads the first 16 of them.
\<close>

theorem toBytes_overflow_counterexample:
  "toBytes (BigNumber_of_int 18446744073709551616) 8 = [16, 0, 0, 0, 0, 0, 0, 0]"
  using toString16_nat [of 18446744073709551616]
  by (simp add: BigNumber_of_int_def toBytes_def padStart_def hex_of_nat.simps
      hex_digit_def hex_val_def)

text \<open>
  Claim C4, amended. For every non-negative integer \<open>v\<close> and width \<open>w\<close>: when \<open>v\<close>
  fits in \<open>w\<close> bytes, the encoder returns exactly \<open>w\<close> bytes, the big-endian
  representation of \<open>v\<close> padded with zeros on the left; when \<open>v\<close> does not fit, the
  encoder does not fail: it returns the bytes of the leading hexadecimal digits of
  \<open>v\<close>, two digits a byte, dropping the last digit when their number is odd, which are
  at least \<open>w\<close> bytes.
\<close>

theorem toBytes_fixed_width:
  "(v < 256 ^ w \<longrightarrow>
      toBytes (Finite (of_nat v)) w = be_bytes w v \<and>
      length (toBytes (Finite (of_nat v)) w) = w \<and>
      be_value (toBytes (Finite (of_nat v)) w) = v) \<and>
   (256 ^ w \<le> v \<longrightarrow>
      toBytes (Finite (of_nat v)) w =
        be_bytes (length (hex_of_nat v) div 2) (v div 16 ^ (length (hex_of_nat v) mod 2)) \<and>
      w \<le> length (toBytes (Finite (of_nat v)) w))"
proof (intro conjI impI)
  assume fits: "v < 256 ^ w"
  then show "toBytes (Finite (of_nat v)) w = be_bytes w v" by (rule toBytes_fits)
  then show "length (toBytes (Finite (of_nat v)) w) = w" by simp
  from fits show "be_value (toBytes (Finite (of_nat v)) w) = v"
    by (simp add: toBytes_fits be_value_be_bytes)
next
  assume big: "256 ^ w \<le> v"
  then show e: "toBytes (Finite (of_nat v)) w =
      be_bytes (length (hex_of_nat v) div 2) (v div 16 ^ (length (hex_of_nat v) mod 2))"
    by (rule toBytes_too_large)
  from big have "16 ^ (2 * w) \<le> v" by (simp add: power_mult)
  then have "2 * w < length (hex_of_nat v)" by (rule length_hex_of_nat_gt)
  then show "w \<le> length (toBytes (Finite (of_nat v)) w)"
    unfolding e by simp
qed

text \<open>
  The value 1000 in 8 bytes, and \<open>2^64\<close> in 8 bytes.
\<close>

theorem toBytes_fixed_width_witness:
  "toBytes (Finite 1000) 8 = [0, 0, 0, 0, 0, 0, 3, 232] \<and>
   length (toBytes (Finite 1000) 8) = 8 \<and>
   toBytes (Finite 18446744073709551616) 8 = [16, 0, 0, 0, 0, 0, 0, 0]"
proof -
  have l: "length (hex_of_nat 18446744073709551616) = 17"
    by (simp add: hex_of_nat.simps)
  from toBytes_fixed_width [of 1000 8] toBytes_fixed_width [of 18446744073709551616 8]
  show ?thesis unfolding l by (simp add: be_bytes_numeral)
qed

subsection \<open>C5: the signature payload\<close>

text \<open>
  Claim C5 says that a signature without a recovery id gives a payload of 128
  hexadecimal characters, \<open>r\<close> and \<open>s\<close> without a suffix. The payload starts as the
  empty string and is assigned only under the test of the recovery id: without one it
  stays empty.
\<close>

theorem signaturePayload_absent_counterexample:
  "signaturePayload \<lparr>sig_r = 1, sig_s = 1, recoveryParam = None\<rparr> = Inr [] \<and>
   signaturePayload \<lparr>sig_r = 1, sig_s = 1, recoveryParam = None\<rparr> \<noteq>
     Inr (Buffer_toString_hex (be_bytes 32 1 @ be_bytes 32 1))"
proof -
  have "length (Buffer_toString_hex (be_bytes 32 1 @ be_bytes 32 1)) = 128"
    by (simp add: length_Buffer_toString_hex)
  then have "Buffer_toString_hex (be_bytes 32 1 @ be_bytes 32 1) \<noteq> []"
    by auto
  then show ?thesis
    by (simp add: signaturePayload_def signatureToBytes_def toArrayLike_be_def)
qed

text \<open>
  Claim C5, amended. For a signature whose \<open>r\<close> and \<open>s\<close> are below \<open>2^256\<close>: when
  the recovery id is present (0 included), the payload is the 32 big-endian bytes of
  \<open>r\<close>, then those of \<open>s\<close>, in hexadecimal, then the recovery id as two hexadecimal
  digits, 130 characters in all; when the recovery id is absent, the payload is the
  empty string, and no error is raised.
\<close>

theorem signaturePayload_cases:
  assumes "sig_r sg < 2 ^ 256" and "sig_s sg < 2 ^ 256"
  shows "(recoveryParam sg = Some v \<and> v < 256 \<longrightarrow>
            signaturePayload sg =
              Inr (Buffer_toString_hex (be_bytes 32 (sig_r sg) @ be_bytes 32 (sig_s sg)) @
                   [hex_digit (v div 16), hex_digit (v mod 16)]) \<and>
            length (Buffer_toString_hex (be_bytes 32 (sig_r sg) @ be_bytes 32 (sig_s sg)) @
                   [hex_digit (v div 16), hex_digit (v mod 16)]) = 130) \<and>
         (recoveryParam sg = None \<longrightarrow> signaturePayload sg = Inr [])"
proof -
  have "(256::nat) ^ 32 = 2 ^ 256" by simp
  with assms have "sig_r sg < 256 ^ 32" and "sig_s sg < 256 ^ 32" by simp_all
  then have b: "signatureToBytes sg = Inr (be_bytes 32 (sig_r sg) @ be_bytes 32 (sig_s sg))"
    by (simp add: signatureToBytes_def toArrayLike_be_def)
  have p: "padStart 2 CHR ''0'' (hex_of_nat v) = [hex_digit (v div 16), hex_digit (v mod 16)]"
    if "v < 256"
  proof -
    from that have "v < 16 ^ 2" by simp
    then have "padStart 2 CHR ''0'' (hex_of_nat v) = hex_fixed 2 v"
      by (rule padStart_hex_of_nat) simp
    moreover from that have "v div 16 mod 16 = v div 16" by simp
    ultimately show ?thesis by (simp add: hex_fixed_numeral)
  qed
  show ?thesis
    by (simp add: signaturePayload_def b p length_Buffer_toString_hex)
qed

text \<open>
  A signature with recovery id 0, and the same without a recovery id.
\<close>

theorem signaturePayload_cases_witness:
  "length (Buffer_toString_hex (be_bytes 32 1 @ be_bytes 32 2) @ [hex_digit 0, hex_digit 0]) = 130 \<and>
   signaturePayload \<lparr>sig_r = 1, sig_s = 2, recoveryParam = Some 0\<rparr> =
     Inr (Buffer_toString_hex (be_bytes 32 1 @ be_bytes 32 2) @ ''00'') \<and>
   signaturePayload \<lparr>sig_r = 1, sig_s = 2, recoveryParam = None\<rparr> = Inr []"
proof -
  from signaturePayload_cases [of "\<lparr>sig_r = 1, sig_s = 2, recoveryParam = Some 0\<rparr>" 0]
       signaturePayload_cases [of "\<lparr>sig_r = 1, sig_s = 2, recoveryParam = None\<rparr>" 0]
  show ?thesis by (simp add: hex_digit_def)
qed

subsection \<open>C6: the scaling of the fees\<close>

text \<open>
  Claim C6. The fees of an order digest are the fee percentage times \<open>10^8\<close>,
  truncated towards zero. \<^verbatim>\<open>feesPercentWithDecimal\<close> multiplies and does not truncate,
  unlike \<^verbatim>\<open>quantityFromReal\<close>, \<^verbatim>\<open>priceFromReal\<close> and \<^verbatim>\<open>quantityWithDecimal\<close>. On the fee
  percentage 0.045000001 it returns 4500000.1, which prints in base 16 with a point:
  the fee field then has 3 bytes, where the truncated value 4500000 fills 8.
\<close>

theorem feesPercentWithDecimal_keeps_fraction:
  "feesPercentWithDecimal (BigNumber_of_number (Number ''0.045000001'')) =
     Finite (45000001 / 10) \<and>
   feePercentToInteger (45000001 / 1000000000) = 4500000 \<and>
   toBytes (Finite (45000001 / 10)) 8 = [68, 170, 32] \<and>
   toBytes (Finite 4500000) 8 = [0, 0, 0, 0, 0, 68, 170, 32]"
proof -
  have "toString16 (Finite (45000001 / 10)) = ''44aa20.1999999999999999999a''"
    by (simp add: toString16_def hex_of_magnitude_def Let_def floor_numeral_quotient
        strip_trailing_zeros_def hex_of_nat.simps hex_fixed_numeral hex_digit_def)
  then have "toBytes (Finite (45000001 / 10)) 8 = [68, 170, 32]"
    by (simp add: toBytes_def padStart_def hex_val_def)
  moreover have "toBytes (Finite 4500000) 8 = [0, 0, 0, 0, 0, 68, 170, 32]"
    using toBytes_fits [of 4500000 8] by (simp add: be_bytes_numeral)
  moreover have "feePercentToInteger (45000001 / 1000000000) = 4500000"
    by (simp add: feePercentToInteger_def truncate_toward_zero_def floor_eq_iff)
  moreover have
    "feesPercentWithDecimal (BigNumber_of_number (Number ''0.045000001'')) =
       Finite (45000001 / 10)"
    by (simp add: feesPercentWithDecimal_def FEE_MULTIPLIER_def BigNumber_of_number_def
        Number_eval)
  ultimately show ?thesis by simp
qed

subsection \<open>C7: negative quantities\<close>

text \<open>
  Claim C7 says that the conversion of a negative quantity fails with
  InvalidNumericInput. \<^verbatim>\<open>quantityFromReal\<close> checks no sign: \<open>-1\<close> at precision 8
  becomes \<open>-100000000\<close>.
\<close>

theorem quantityFromReal_negative_counterexample:
  "quantityFromReal (Number ''-1'') 8 = Finite (- 100000000)"
proof -
  have "Number ''-1'' = Num (- 1)" by (simp add: Number_eval)
  then show ?thesis
    by (simp add: quantityFromReal_Num quantityToInteger_def truncate_toward_zero_def)
qed

text \<open>
  Claim C7, amended. The conversion of a quantity does not fail on a negative input:
  for every decimal \<open>q\<close> it returns \<open>q * 10^d\<close> truncated towards zero, which is
  negative or zero when \<open>q\<close> is negative.
\<close>

theorem quantityFromReal_negative:
  "quantityFromReal (Num q) d = Finite (of_int (truncate_toward_zero (q * 10 powi d))) \<and>
   (q < 0 \<longrightarrow> truncate_toward_zero (q * 10 powi d) \<le> 0)"
proof
  show "quantityFromReal (Num q) d = Finite (of_int (truncate_toward_zero (q * 10 powi d)))"
    using quantityFromReal_Num [of q d] by (simp add: quantityToInteger_def)
  show "q < 0 \<longrightarrow> truncate_toward_zero (q * 10 powi d) \<le> 0"
  proof
    assume "q < 0"
    moreover have "(0::rat) < 10 powi d" by simp
    ultimately have "q * 10 powi d \<le> 0" by (simp add: mult_le_0_iff)
    then show "truncate_toward_zero (q * 10 powi d) \<le> 0" by (rule truncate_nonpos)
  qed
qed

text \<open>
  The quantity \<open>-1\<close> at precision 8.
\<close>

theorem quantityFromReal_negative_witness:
  "quantityFromReal (Num (- 1)) 8 = Finite (- 100000000) \<and> (- 100000000 :: int) \<le> 0"
proof -
  have v: "truncate_toward_zero (- 1 * 10 powi 8) = - 100000000"
    by (simp add: truncate_toward_zero_def)
  from quantityFromReal_negative [of "- 1" 8] show ?thesis
    unfolding v by simp
qed

subsection \<open>C9: the nonces of a batch\<close>

text \<open>
  Claim C9. The nonces of a batch are strictly increasing. The older
  \<^verbatim>\<open>HibachiSDK.sendBatchOrder\<close> gives an element without a nonce the reading of the
  clock, with no index added: two elements handled in the same millisecond get the same
  nonce. (In \<^verbatim>\<open>HibachiEcdsaSDK.sendBatchOrder\<close> the index is added, and the nonces
  increase when the clock does not go back, as shown above.)
\<close>

theorem HibachiSDK_sendBatchOrder_same_nonce:
  "map_sum id (map BatchOrder.nonce)
     (HibachiSDK_sendBatchOrder (\<lambda>b. []) (\<lambda>k. 1700000000000)
        [\<lparr>action = ''cancel'', nonce = None, contractId = 0, side = None,
          quantity = [], price = None, updatedQuantity = [], updatedPrice = None,
          maxFeesPercent = [], underlyingDecimals = 0, orderId = ''1001'', OrderId = None,
          signature = []\<rparr>,
         \<lparr>action = ''cancel'', nonce = None, contractId = 0, side = None,
          quantity = [], price = None, updatedQuantity = [], updatedPrice = None,
          maxFeesPercent = [], underlyingDecimals = 0, orderId = ''1002'', OrderId = None,
          signature = []\<rparr>]) =
   Inr [Some 1700000000000, Some 1700000000000]"
  by (simp add: HibachiSDK_sendBatchOrder_def HibachiSDK_orderBuffer_def)

subsection \<open>C10: the contract id of a modified order\<close>

text \<open>
  Claim C10. In \<^verbatim>\<open>HibachiEcdsaSDK.sendBatchOrder\<close>, the digest of an element with the
  action \<open>modify\<close> is built with the contract id 2, whatever contract id the element
  carries; the digest of an element with the action \<open>place\<close> carries the contract id
  of the element. The contract id is the field of 4 bytes after the 8 bytes of the
  nonce (a nonce that fits 8 bytes, a contract id that fits 4).
\<close>

theorem sendBatchOrder_modify_contractId:
  assumes "0 \<le> n" "n < 2 ^ 64"
  shows "(action order = ''modify'' \<longrightarrow>
            (\<exists>buf. sendBatchOrder_orderBuffer n order = Inr buf \<and>
                   take 4 (drop 8 buf) = [0, 0, 0, 2]) \<and>
            sendBatchOrder_orderBuffer n (order\<lparr>BatchOrder.contractId := c\<rparr>) =
              sendBatchOrder_orderBuffer n order) \<and>
         (action order = ''place'' \<and> 0 \<le> BatchOrder.contractId order \<and>
          BatchOrder.contractId order < 2 ^ 32 \<longrightarrow>
            (\<exists>buf. sendBatchOrder_orderBuffer n order = Inr buf \<and>
                   take 4 (drop 8 buf) = be_bytes 4 (nat (BatchOrder.contractId order))))"
proof (intro conjI impI)
  assume m: "action order = ''modify''"
  let ?p = "\<lparr>OrderPayload.nonce = n, OrderPayload.contractId = 2,
             OrderPayload.side = side_of (BatchOrder.side order),
             OrderPayload.price = updatedPrice order,
             totalQuantity = updatedQuantity order,
             maxFees = Some (Number (BatchOrder.maxFeesPercent order))\<rparr>"
  have "take 4 (drop 8 (serializeOrder ?p (underlyingDecimals order))) = be_bytes 4 (nat 2)"
    using assms by (rule contractId_bytes) simp_all
  then have "take 4 (drop 8 (serializeOrder ?p (underlyingDecimals order))) = [0, 0, 0, 2]"
    by (simp add: be_bytes_numeral)
  with m show "\<exists>buf. sendBatchOrder_orderBuffer n order = Inr buf \<and>
                    take 4 (drop 8 buf) = [0, 0, 0, 2]"
    by (simp add: sendBatchOrder_orderBuffer_def)
  from m show "sendBatchOrder_orderBuffer n (order\<lparr>BatchOrder.contractId := c\<rparr>) =
               sendBatchOrder_orderBuffer n order"
    by (simp add: sendBatchOrder_orderBuffer_def)
next
  assume pl: "action order = ''place'' \<and> 0 \<le> BatchOrder.contractId order \<and>
              BatchOrder.contractId order < 2 ^ 32"
  let ?p = "\<lparr>OrderPayload.nonce = n, OrderPayload.contractId = BatchOrder.contractId order,
             OrderPayload.side = side_of (BatchOrder.side order),
             OrderPayload.price = BatchOrder.price order,
             totalQuantity = BatchOrder.quantity order,
             maxFees = Some (Number (BatchOrder.maxFeesPercent order))\<rparr>"
  from pl have "0 \<le> BatchOrder.contractId order" "BatchOrder.contractId order < 2 ^ 32"
    by blast+
  with assms have "take 4 (drop 8 (serializeOrder ?p (underlyingDecimals order))) =
                   be_bytes 4 (nat (BatchOrder.contractId order))"
    by (rule contractId_bytes) simp_all
  with pl show "\<exists>buf. sendBatchOrder_orderBuffer n order = Inr buf \<and>
                     take 4 (drop 8 buf) = be_bytes 4 (nat (BatchOrder.contractId order))"
    by (simp add: sendBatchOrder_orderBuffer_def)
qed

text \<open>
  The elements of the example script: a modified order that carries the contract id
  3, and a placed order that carries the contract id 1.
\<close>

theorem sendBatchOrder_modify_contractId_witness:
  "(\<exists>buf. sendBatchOrder_orderBuffer 1700000000001
            \<lparr>action = ''modify'', nonce = None, contractId = 3, side = Some ASK,
             quantity = [], price = None, updatedQuantity = ''0.0001'',
             updatedPrice = Some ''100000.1'', maxFeesPercent = ''0.045'',
             underlyingDecimals = 8, orderId = ''000000000000000000'', OrderId = None,
             signature = []\<rparr> = Inr buf \<and>
          take 4 (drop 8 buf) = [0, 0, 0, 2]) \<and>
   (\<exists>buf. sendBatchOrder_orderBuffer 1700000000000
            \<lparr>action = ''place'', nonce = None, contractId = 1, side = Some BID,
             quantity = ''.0001'', price = Some ''100010'', updatedQuantity = [],
             updatedPrice = None, maxFeesPercent = ''0.045'',
             underlyingDecimals = 9, orderId = [], OrderId = None,
             signature = []\<rparr> = Inr buf \<and>
          take 4 (drop 8 buf) = [0, 0, 0, 1])"
proof -
  have a: "(0::int) \<le> 1700000000001" "(1700000000001::int) < 2 ^ 64"
    and b: "(0::int) \<le> 1700000000000" "(1700000000000::int) < 2 ^ 64" by simp_all
  from sendBatchOrder_modify_contractId [OF a, of
      "\<lparr>action = ''modify'', nonce = None, contractId = 3, side = Some ASK,
        quantity = [], price = None, updatedQuantity = ''0.0001'',
        updatedPrice = Some ''100000.1'', maxFeesPercent = ''0.045'',
        underlyingDecimals = 8, orderId = ''000000000000000000'', OrderId = None,
        signature = []\<rparr>" 3]
    sendBatchOrder_modify_contractId [OF b, of
      "\<lparr>action = ''place'', nonce = None, contractId = 1, side = Some BID,
        quantity = ''.0001'', price = Some ''100010'', updatedQuantity = [],
        updatedPrice = None, maxFeesPercent = ''0.045'',
        underlyingDecimals = 9, orderId = [], OrderId = None,
        signature = []\<rparr>" 0]
  show ?thesis by (simp add: be_bytes_numeral)
qed

end
